theory Spec2Isabelle
  imports Main "HOL-Library.Word" "HOL-Library.Sublist"
begin

section \<open>Message model\<close>

text \<open>
  Go errors are modelled by their text (the value of \<^verbatim>\<open>err.Error()\<close>); a result of
  type \<open>error option\<close> is \<open>None\<close> for Go's \<^verbatim>\<open>nil\<close>.
\<close>

type_synonym error = string

type_synonym bytes = "8 word list"

text \<open>
  Modelled from the spec: the declarations of \<^verbatim>\<open>Request\<close>, \<^verbatim>\<open>Response\<close> and of the
  constants \<^verbatim>\<open>requestMkdir\<close>, \<^verbatim>\<open>requestCreate\<close>, \<^verbatim>\<open>requestRemove\<close>, \<^verbatim>\<open>responseOk\<close>,
  \<^verbatim>\<open>responseErr\<close> are not among the source files. The spec gives a request a kind
  (MakeDirectory, PutFile, Remove), a path and a payload, and a response a status (Ok, Error)
  and a message. The constructors \<open>requestOther\<close> and \<open>responseOther\<close> stand for every value
  of the \<^verbatim>\<open>Type\<close> field that is none of the named constants.
\<close>

datatype requestType = requestMkdir | requestCreate | requestRemove | requestOther int

datatype responseType = responseOk | responseErr | responseOther int

record Request =
  Type :: requestType
  Path :: string
  Data :: bytes

record Response =
  Type :: responseType
  Message :: string

text \<open>
  What the code uses of the missing declarations without the source files fixing it: the
  text that \<^verbatim>\<open>%s\<close> prints for a request and for a response, and the zero value of
  \<^verbatim>\<open>Response\<close> (the value of \<^verbatim>\<open>var resp Response\<close>). They are parameters of the model.
\<close>

record Decls =
  reqString :: "Request \<Rightarrow> string"
  respString :: "Response \<Rightarrow> string"
  zeroResponse :: Response

section \<open>Paths\<close>

text \<open>
  \<^verbatim>\<open>filepath.Clean\<close> and \<^verbatim>\<open>filepath.Join\<close> of the Go library, on Unix: the separator is
  \<^verbatim>\<open>/\<close>, there is no volume name and \<^verbatim>\<open>FromSlash\<close> is the identity. \<^verbatim>\<open>Clean\<close> reads the
  path byte by byte and writes into a buffer; \<open>out\<close> holds the bytes written so far (its
  length is the library's write index \<^verbatim>\<open>w\<close>) and \<open>dotdot\<close> is the index in the buffer
  where a \<^verbatim>\<open>..\<close> must stop backtracking.
\<close>

definition isPathSeparator :: "char \<Rightarrow> bool" where
  "isPathSeparator c = (c = CHR ''/'')"

text \<open>
  Backtracking over the last element written: from \<^verbatim>\<open>w - 1\<close>, the index goes down
  while it is above \<open>dotdot\<close> and the byte there is not a separator.
\<close>

function backtrack :: "string \<Rightarrow> nat \<Rightarrow> nat \<Rightarrow> nat" where
  "backtrack buf dotdot w =
     (if w > dotdot \<and> \<not> isPathSeparator (buf ! w) then backtrack buf dotdot (w - 1) else w)"
  by pat_completeness auto
termination
  by (relation "measure (\<lambda>(buf, dotdot, w). w)") auto

declare backtrack.simps [simp del]

text \<open>The unread part of the path starts with a \<^verbatim>\<open>.\<close> element, or with a \<^verbatim>\<open>..\<close> element.\<close>

fun dotElem :: "string \<Rightarrow> bool" where
  "dotElem [] = False"
| "dotElem [c] = (c = CHR ''.'')"
| "dotElem (c # x # _) = (c = CHR ''.'' \<and> isPathSeparator x)"

fun dotdotElem :: "string \<Rightarrow> bool" where
  "dotdotElem [c, x] = (c = CHR ''.'' \<and> x = CHR ''.'')"
| "dotdotElem (c # x # y # _) = (c = CHR ''.'' \<and> x = CHR ''.'' \<and> isPathSeparator y)"
| "dotdotElem _ = False"

text \<open>
  The loop of \<^verbatim>\<open>Clean\<close> over the unread part of the path, in the order of its switch:
  an empty element, a \<^verbatim>\<open>.\<close> element, a \<^verbatim>\<open>..\<close> element (backtrack, or append \<^verbatim>\<open>..\<close>
  when the path is not rooted, or drop it), a real element (copied after a separator).
\<close>

function cleanLoop :: "bool \<Rightarrow> string \<Rightarrow> string \<times> nat \<Rightarrow> string \<times> nat" where
  "cleanLoop rooted [] (out, dotdot) = (out, dotdot)"
| "cleanLoop rooted (c # cs) (out, dotdot) =
     (if isPathSeparator c then cleanLoop rooted cs (out, dotdot)
      else if dotElem (c # cs) then cleanLoop rooted cs (out, dotdot)
      else if dotdotElem (c # cs)
        then (if length out > dotdot
              then cleanLoop rooted (tl cs)
                     (take (backtrack out dotdot (length out - 1)) out, dotdot)
              else if \<not> rooted
              then cleanLoop rooted (tl cs)
                     ((if length out > 0 then out @ ''/'' else out) @ ''..'',
                      length ((if length out > 0 then out @ ''/'' else out) @ ''..''))
              else cleanLoop rooted (tl cs) (out, dotdot))
      else cleanLoop rooted (dropWhile (\<lambda>x. \<not> isPathSeparator x) cs)
             ((if rooted \<and> length out \<noteq> 1 \<or> \<not> rooted \<and> length out \<noteq> 0
               then out @ ''/'' else out)
                @ c # takeWhile (\<lambda>x. \<not> isPathSeparator x) cs, dotdot))"
  by pat_completeness auto
termination
proof (relation "measure (\<lambda>(rooted, p, st). length p)")
  show "wf (measure (\<lambda>(rooted, p, st). length p))" by simp
qed (simp_all add: less_Suc_eq_le length_dropWhile_le)

definition Clean :: "string \<Rightarrow> string" where
  "Clean p =
     (case p of
        [] \<Rightarrow> ''.''
      | c # cs \<Rightarrow>
          (let rooted = isPathSeparator c;
               out = fst (if rooted then cleanLoop rooted cs (''/'', 1)
                          else cleanLoop rooted p ([], 0))
           in if length out = 0 then ''.'' else out))"

declare cleanLoop.simps [simp del]

text \<open>\<^verbatim>\<open>strings.Join\<close>, and \<^verbatim>\<open>filepath.Join\<close>: the elements from the first non-empty one
  on, joined by the separator and cleaned.\<close>

fun stringsJoin :: "string list \<Rightarrow> string \<Rightarrow> string" where
  "stringsJoin [] sep = []"
| "stringsJoin [e] sep = e"
| "stringsJoin (e # es) sep = e @ sep @ stringsJoin es sep"

fun Join :: "string list \<Rightarrow> string" where
  "Join [] = []"
| "Join (e # es) = (if e \<noteq> [] then Clean (stringsJoin (e # es) ''/'') else Join es)"

section \<open>Server\<close>

record Server =
  address :: string
  port :: "16 word"
  path :: string

definition validateRequest :: "Server \<Rightarrow> Request \<Rightarrow> error option" where
  "validateRequest sv req =
     (if Path req = [] then Some ''Missing request path''
      else if Path req \<noteq> Clean (Path req)
        then Some (''Erroneous path value: '' @ [CHR 0x27] @ Path req @ [CHR 0x27])
      else None)"

subsection \<open>The destination tree\<close>

text \<open>
  The file system the server writes to, as a map from absolute cleaned paths to what is
  there. The operations are those of the operating system that \<^verbatim>\<open>ApplyRequest\<close> calls,
  with the failures that depend on the tree: a missing parent, a parent that is a file, an
  existing entry for \<^verbatim>\<open>os.Mkdir\<close>, a directory for \<^verbatim>\<open>ioutil.WriteFile\<close>. A path resolves
  when its parent is a directory (in a tree the parent of every entry is one). Permissions,
  symbolic links and failures of the device are not modelled, and an entry of the map can
  be reached under its path.
\<close>

datatype node = Dir | File bytes

type_synonym filesystem = "string \<rightharpoonup> node"

definition parentDir :: "string \<Rightarrow> string" where
  "parentDir p =
     (case butlast (rev (dropWhile (\<lambda>c. \<not> isPathSeparator c) (rev p))) of
        [] \<Rightarrow> ''/''
      | d \<Rightarrow> d)"

text \<open>\<open>slashed p\<close> is the directory \<open>p\<close> with the separator that precedes the names in it;
  \<open>beneath p k\<close>: the path \<open>k\<close> lies below the directory \<open>p\<close>.\<close>

definition slashed :: "string \<Rightarrow> string" where
  "slashed p = (if p = ''/'' then p else p @ ''/'')"

definition beneath :: "string \<Rightarrow> string \<Rightarrow> bool" where
  "beneath p k = (k \<noteq> p \<and> prefix (slashed p) k)"

text \<open>The text of an \<^verbatim>\<open>*os.PathError\<close>.\<close>

definition PathError :: "string \<Rightarrow> string \<Rightarrow> string \<Rightarrow> error" where
  "PathError op p errno = op @ '' '' @ p @ '': '' @ errno"

definition lookupParent :: "filesystem \<Rightarrow> string \<Rightarrow> string option" where
  "lookupParent fs p =
     (case fs (parentDir p) of
        None \<Rightarrow> Some ''no such file or directory''
      | Some (File _) \<Rightarrow> Some ''not a directory''
      | Some Dir \<Rightarrow> None)"

definition Mkdir :: "filesystem \<Rightarrow> string \<Rightarrow> error option \<times> filesystem" where
  "Mkdir fs p =
     (case lookupParent fs p of
        Some errno \<Rightarrow> (Some (PathError ''mkdir'' p errno), fs)
      | None \<Rightarrow>
          (case fs p of
             Some _ \<Rightarrow> (Some (PathError ''mkdir'' p ''file exists''), fs)
           | None \<Rightarrow> (None, fs(p \<mapsto> Dir))))"

definition WriteFile :: "filesystem \<Rightarrow> string \<Rightarrow> bytes \<Rightarrow> error option \<times> filesystem" where
  "WriteFile fs p content =
     (case lookupParent fs p of
        Some errno \<Rightarrow> (Some (PathError ''open'' p errno), fs)
      | None \<Rightarrow>
          (case fs p of
             Some Dir \<Rightarrow> (Some (PathError ''open'' p ''is a directory''), fs)
           | _ \<Rightarrow> (None, fs(p \<mapsto> File content))))"

text \<open>
  \<^verbatim>\<open>os.RemoveAll\<close>. When something is at the path, it is removed with everything below it.
  When nothing is there, the library's first \<^verbatim>\<open>Remove\<close> fails; a failure that says the path
  does not exist is success, and so is a parent that does not exist when the library
  opens it; the other failures of looking the path up are returned: a regular file where a
  directory is needed, a name that is too long. The lookup is followed from the nearest
  ancestor that exists: \<open>ancestors p\<close> are the directories above \<open>p\<close>, nearest first, and
  \<open>firstAbsent\<close> goes up from \<open>p\<close> to the topmost path that does not exist and the ancestor
  above it, if any. The error names \<open>p\<close> when the parent could be opened (the failure is
  that of \<^verbatim>\<open>unlinkat\<close>) and the parent otherwise.
\<close>

definition NAME_MAX :: nat where
  "NAME_MAX = 255"

definition PATH_MAX :: nat where
  "PATH_MAX = 4096"

definition baseName :: "string \<Rightarrow> string" where
  "baseName p = rev (takeWhile (\<lambda>c. \<not> isPathSeparator c) (rev p))"

function ancestors :: "string \<Rightarrow> string list" where
  "ancestors p =
     (if length (parentDir p) < length p then parentDir p # ancestors (parentDir p) else [])"
  by pat_completeness auto
termination
  by (relation "measure length") auto

declare ancestors.simps [simp del]

fun firstAbsent :: "filesystem \<Rightarrow> string \<Rightarrow> string list \<Rightarrow> string \<times> string option" where
  "firstAbsent fs q [] = (q, None)"
| "firstAbsent fs q (a # as) = (if fs a = None then firstAbsent fs a as else (q, Some a))"

definition lookupAbsent :: "filesystem \<Rightarrow> string \<Rightarrow> error option" where
  "lookupAbsent fs p =
     (if length (parentDir p) \<ge> PATH_MAX
      then Some (PathError ''open'' (parentDir p) ''file name too long'')
      else case firstAbsent fs p (ancestors p) of (q, anc) \<Rightarrow>
        (let failed = (if q = p then PathError ''unlinkat'' p
                       else PathError ''open'' (parentDir p))
         in if (case anc of
                  None \<Rightarrow> False
                | Some a \<Rightarrow> (case fs a of Some (File _) \<Rightarrow> True | _ \<Rightarrow> False))
            then Some (failed ''not a directory'')
            else if length (baseName q) > NAME_MAX
            then Some (failed ''file name too long'')
            else None))"

definition RemoveAll :: "filesystem \<Rightarrow> string \<Rightarrow> error option \<times> filesystem" where
  "RemoveAll fs p =
     (case fs p of
        Some _ \<Rightarrow> (None, (\<lambda>k. if k = p \<or> beneath p k then None else fs k))
      | None \<Rightarrow> (lookupAbsent fs p, fs))"

subsection \<open>Applying a request\<close>

text \<open>
  \<^verbatim>\<open>ApplyRequest\<close> fills the response and returns \<^verbatim>\<open>nil\<close> on every path; the model
  returns the response and the tree afterwards.
\<close>

definition ApplyRequest :: "Decls \<Rightarrow> Server \<Rightarrow> Request \<Rightarrow> filesystem
    \<Rightarrow> Response \<times> filesystem" where
  "ApplyRequest d sv req fs =
     (case validateRequest sv req of
        Some err \<Rightarrow> (\<lparr>Response.Type = responseErr, Message = err\<rparr>, fs)
      | None \<Rightarrow>
          (let absPath = Join [path sv, Path req];
               (err, fs') =
                 (case Request.Type req of
                    requestMkdir \<Rightarrow> Mkdir fs absPath
                  | requestCreate \<Rightarrow> WriteFile fs absPath (Data req)
                  | requestRemove \<Rightarrow> RemoveAll fs absPath
                  | requestOther _ \<Rightarrow> (Some (''Unhandled request: '' @ reqString d req), fs))
           in case err of
                Some e \<Rightarrow> (\<lparr>Response.Type = responseErr, Message = e\<rparr>, fs')
              | None \<Rightarrow> (\<lparr>Response.Type = responseOk, Message = []\<rparr>, fs')))"

text \<open>The requests of one connection, applied in the order they arrive.\<close>

fun applyRequests :: "Decls \<Rightarrow> Server \<Rightarrow> Request list \<Rightarrow> filesystem
    \<Rightarrow> Response list \<times> filesystem" where
  "applyRequests d sv [] fs = ([], fs)"
| "applyRequests d sv (req # reqs) fs =
     (case ApplyRequest d sv req fs of
        (resp, fs') \<Rightarrow>
          (case applyRequests d sv reqs fs' of (resps, fs'') \<Rightarrow> (resp # resps, fs'')))"

section \<open>Client\<close>

subsection \<open>Sending a batch\<close>

text \<open>
  The network is an oracle over the history of the session. A history is the list of the
  flushes made so far: a flush whose dial failed, or a connection with the calls made on it
  and what each call brought back (\<open>None\<close>: \<^verbatim>\<open>rconn.Call\<close> returned an error and left the
  reply untouched).
\<close>

type_synonym exchange = "Request \<times> Response option"

datatype flush = DialFailed error | Connected "exchange list"

record Net =
  dial :: "flush list \<Rightarrow> error option"
  call :: "flush list \<Rightarrow> exchange list \<Rightarrow> Request \<Rightarrow> Response option"

definition requestsBufferSize :: nat where
  "requestsBufferSize = 100"

text \<open>\<^verbatim>\<open>errors.Wrap(err, msg)\<close>: the text of the wrapped error.\<close>

definition Wrap :: "error \<Rightarrow> string \<Rightarrow> error" where
  "Wrap err msg = msg @ '': '' @ err"

text \<open>
  The loop of \<^verbatim>\<open>sendRequests\<close> over the requests, on an open connection: \<open>cur\<close> are the
  exchanges already made on it. The value \<^verbatim>\<open>rconn.Call\<close> returns is dropped by the code;
  \<^verbatim>\<open>resp\<close> starts as the zero value at each iteration.
\<close>

fun sendLoop :: "Decls \<Rightarrow> Net \<Rightarrow> flush list \<Rightarrow> exchange list \<Rightarrow> Request list
    \<Rightarrow> error option \<times> exchange list" where
  "sendLoop d net h cur [] = (None, cur)"
| "sendLoop d net h cur (req # reqs) =
     (let r = call net h cur req;
          resp = (case r of None \<Rightarrow> zeroResponse d | Some x \<Rightarrow> x);
          cur' = cur @ [(req, r)]
      in if Response.Type resp = responseErr
         then (Some (''Sending request to server '' @ [CHR 0x27] @ reqString d req @ [CHR 0x27]
                 @ '' failed: '' @ respString d resp), cur')
         else sendLoop d net h cur' reqs)"

definition sendRequests :: "Decls \<Rightarrow> Net \<Rightarrow> flush list \<Rightarrow> Request list
    \<Rightarrow> error option \<times> flush list" where
  "sendRequests d net h reqs =
     (if length reqs = 0 then (None, h)
      else case dial net h of
        Some err \<Rightarrow> (Some (Wrap err ''Connection to server failed''), h @ [DialFailed err])
      | None \<Rightarrow>
          (case sendLoop d net h [] reqs of
             (res, cur) \<Rightarrow> (res, h @ [Connected cur])))"

subsection \<open>The requests\<close>

record Client =
  path :: string
  server :: string

text \<open>
  What the client asks of the operating system and of the libraries: \<^verbatim>\<open>filepath.Rel\<close>,
  \<^verbatim>\<open>ioutil.ReadFile\<close>, \<^verbatim>\<open>os.Stat\<close> (an error, or whether the entry is a directory),
  the entries \<^verbatim>\<open>filepath.Walk\<close> visits from a root, in its order, each with the
  \<^verbatim>\<open>info.IsDir()\<close> and the error it hands to the callback, and the watcher of
  \<^verbatim>\<open>fsnotify\<close>.
\<close>

datatype visit = Visit string bool "error option"

record OS =
  Rel :: "string \<Rightarrow> string \<Rightarrow> error + string"
  ReadFile :: "string \<Rightarrow> error + bytes"
  Stat :: "string \<Rightarrow> error + bool"
  Walk :: "string \<Rightarrow> visit list"
  NewWatcher :: "error option"
  watcherAdd :: "string \<Rightarrow> error option"

text \<open>\<^verbatim>\<open>filepath.Walk\<close> with a callback that never returns \<^verbatim>\<open>SkipDir\<close>: the walk stops
  at the first error the callback returns.\<close>

fun walkWith :: "visit list \<Rightarrow> (visit \<Rightarrow> 's \<Rightarrow> error option \<times> 's) \<Rightarrow> 's
    \<Rightarrow> error option \<times> 's" where
  "walkWith [] walkFn s = (None, s)"
| "walkWith (v # vs) walkFn s =
     (case walkFn v s of
        (Some err, s') \<Rightarrow> (Some err, s')
      | (None, s') \<Rightarrow> walkWith vs walkFn s')"

definition newMkdirRequest :: "string \<Rightarrow> Request" where
  "newMkdirRequest name = \<lparr>Request.Type = requestMkdir, Path = name, Data = []\<rparr>"

definition newCreateRequest :: "OS \<Rightarrow> string \<Rightarrow> string \<Rightarrow> error + Request" where
  "newCreateRequest os file name =
     (case ReadFile os file of
        Inl err \<Rightarrow> Inl err
      | Inr content \<Rightarrow> Inr \<lparr>Request.Type = requestCreate, Path = name, Data = content\<rparr>)"

definition newRemoveRequest :: "string \<Rightarrow> Request" where
  "newRemoveRequest name = \<lparr>Request.Type = requestRemove, Path = name, Data = []\<rparr>"

subsection \<open>Initial sync\<close>

text \<open>
  The callback of the walk in \<^verbatim>\<open>Sync\<close>; its state is the buffer \<open>reqs\<close> and the history
  of flushes.
\<close>

definition syncFn :: "Decls \<Rightarrow> Net \<Rightarrow> Client \<Rightarrow> OS \<Rightarrow> visit \<Rightarrow> Request list \<times> flush list
    \<Rightarrow> error option \<times> Request list \<times> flush list" where
  "syncFn d net c os v s =
     (case (v, s) of (Visit absPath isDir err, (reqs, h)) \<Rightarrow>
        (case err of
           Some e \<Rightarrow> (Some e, (reqs, h))
         | None \<Rightarrow>
             if absPath = Client.path c then (None, (reqs, h))
             else
               (case Rel os (Client.path c) absPath of
                  Inl e \<Rightarrow> (Some e, (reqs, h))
                | Inr relPath \<Rightarrow>
                    (case (if isDir then Inr (newMkdirRequest relPath)
                           else newCreateRequest os absPath relPath) of
                       Inl e \<Rightarrow> (Some e, (reqs, h))
                     | Inr req \<Rightarrow>
                         (let reqs' = reqs @ [req]
                          in if length reqs' = requestsBufferSize
                             then (case sendRequests d net h reqs' of
                                     (Some e, h') \<Rightarrow> (Some e, (reqs', h'))
                                   | (None, h') \<Rightarrow> (None, ([], h')))
                             else (None, (reqs', h)))))))"

definition Sync :: "Decls \<Rightarrow> Net \<Rightarrow> Client \<Rightarrow> OS \<Rightarrow> flush list
    \<Rightarrow> error option \<times> flush list" where
  "Sync d net c os h =
     (case walkWith (Walk os (Client.path c)) (syncFn d net c os) ([], h) of
        (Some err, (reqs, h')) \<Rightarrow> (Some err, h')
      | (None, (reqs, h')) \<Rightarrow> sendRequests d net h' reqs)"

subsection \<open>Watching\<close>

text \<open>The watcher's state is the list of the directories added to it.\<close>

definition walkDir :: "OS \<Rightarrow> string \<Rightarrow> (string \<Rightarrow> 's \<Rightarrow> error option \<times> 's) \<Rightarrow> 's
    \<Rightarrow> error option \<times> 's" where
  "walkDir os root dirFunc s =
     walkWith (Walk os root)
       (\<lambda>v s. case v of Visit subPath isDir err \<Rightarrow>
          (case err of
             Some e \<Rightarrow> (Some e, s)
           | None \<Rightarrow> if \<not> isDir then (None, s) else dirFunc subPath s)) s"

definition recursiveAddWatchers :: "OS \<Rightarrow> string \<Rightarrow> string list
    \<Rightarrow> error option \<times> string list" where
  "recursiveAddWatchers os root watched =
     walkDir os root
       (\<lambda>p w. case watcherAdd os p of Some e \<Rightarrow> (Some e, w) | None \<Rightarrow> (None, w @ [p]))
       watched"

definition startWatcher :: "Client \<Rightarrow> OS \<Rightarrow> error + string list" where
  "startWatcher c os =
     (case NewWatcher os of
        Some err \<Rightarrow> Inl err
      | None \<Rightarrow>
          (case recursiveAddWatchers os (Client.path c) [] of
             (Some err, w) \<Rightarrow> Inl err
           | (None, w) \<Rightarrow> Inr w))"

definition isDirectory :: "OS \<Rightarrow> string \<Rightarrow> bool" where
  "isDirectory os p = (case Stat os p of Inl err \<Rightarrow> False | Inr isDir \<Rightarrow> isDir)"

text \<open>An event of \<^verbatim>\<open>fsnotify\<close>: a name and a bit mask of operations.\<close>

record Event =
  Name :: string
  Op :: "32 word"

definition Create :: "32 word" where "Create = 1"
definition Write :: "32 word" where "Write = 2"
definition Remove :: "32 word" where "Remove = 4"
definition Rename :: "32 word" where "Rename = 8"
definition Chmod :: "32 word" where "Chmod = 16"

text \<open>\<^verbatim>\<open>%d\<close> of a number.\<close>

function decimal :: "nat \<Rightarrow> string" where
  "decimal n =
     (if n < 10 then [''0123456789'' ! n]
      else decimal (n div 10) @ [''0123456789'' ! (n mod 10)])"
  by pat_completeness auto
termination
  by (relation "measure id") auto

declare decimal.simps [simp del]

text \<open>
  \<^verbatim>\<open>handleEvent\<close> returns a request, or nothing (\<open>Inr None\<close>), or an error; the second
  component is the watcher's state afterwards.
\<close>

definition handleEvent :: "Client \<Rightarrow> OS \<Rightarrow> Event \<Rightarrow> string list
    \<Rightarrow> (error + Request option) \<times> string list" where
  "handleEvent c os event w =
     (case Rel os (Client.path c) (Name event) of
        Inl err \<Rightarrow> (Inl err, w)
      | Inr relPath \<Rightarrow>
          if and (Op event) Create = Create then
            (if isDirectory os (Name event)
             then (case recursiveAddWatchers os (Name event) w of
                     (Some err, w') \<Rightarrow> (Inl err, w')
                   | (None, w') \<Rightarrow> (Inr (Some (newMkdirRequest relPath)), w'))
             else (case newCreateRequest os (Name event) relPath of
                     Inl err \<Rightarrow> (Inl err, w)
                   | Inr req \<Rightarrow> (Inr (Some req), w)))
          else if and (Op event) Remove = Remove then (Inr (Some (newRemoveRequest relPath)), w)
          else if and (Op event) Rename = Rename then (Inr (Some (newRemoveRequest relPath)), w)
          else if and (Op event) Write = Write then
            (case newCreateRequest os (Name event) relPath of
               Inl err \<Rightarrow> (Inl err, w)
             | Inr req \<Rightarrow> (Inr (Some req), w))
          else if and (Op event) Chmod = Chmod then (Inr None, w)
          else (Inl (''Erroneous event value ('' @ decimal (unat (Op event)) @ ''): ''
                  @ Name event), w))"

text \<open>
  What the \<^verbatim>\<open>select\<close> of \<^verbatim>\<open>watcherLoop\<close> receives at one iteration: an event, the
  closing of the events channel, an error of the watcher, the closing of the errors
  channel, or the timer. Each arrival comes with the answers of the operating system at
  that moment. The loop runs over the arrivals given; when they are used up it is still
  waiting in the \<^verbatim>\<open>select\<close>.
\<close>

datatype arrival = EventRecv Event | EventsClosed | ErrorRecv error | ErrorsClosed | Timeout

datatype outcome = Returned "error option" | Waiting

fun watcherLoop :: "Decls \<Rightarrow> Net \<Rightarrow> Client \<Rightarrow> Request list \<times> flush list \<times> string list
    \<Rightarrow> (arrival \<times> OS) list \<Rightarrow> outcome \<times> Request list \<times> flush list \<times> string list" where
  "watcherLoop d net c s [] = (Waiting, s)"
| "watcherLoop d net c (reqs, h, w) ((EventsClosed, os) # as) = (Returned None, (reqs, h, w))"
| "watcherLoop d net c (reqs, h, w) ((EventRecv event, os) # as) =
     (case handleEvent c os event w of
        (Inl err, w') \<Rightarrow>
          (Returned (Some (Wrap err ''Handling file event failed'')), (reqs, h, w'))
      | (Inr r, w') \<Rightarrow>
          (let reqs' = (case r of Some req \<Rightarrow> reqs @ [req] | None \<Rightarrow> reqs)
           in if length reqs' = requestsBufferSize
              then (case sendRequests d net h reqs' of
                      (Some err, h') \<Rightarrow> (Returned (Some err), (reqs', h', w'))
                    | (None, h') \<Rightarrow> watcherLoop d net c ([], h', w') as)
              else watcherLoop d net c (reqs', h, w') as))"
| "watcherLoop d net c (reqs, h, w) ((ErrorRecv err, os) # as) =
     (Returned (Some err), (reqs, h, w))"
| "watcherLoop d net c (reqs, h, w) ((ErrorsClosed, os) # as) = (Returned None, (reqs, h, w))"
| "watcherLoop d net c (reqs, h, w) ((Timeout, os) # as) =
     (if length reqs > 0
      then (case sendRequests d net h reqs of
              (Some err, h') \<Rightarrow> (Returned (Some err), (reqs, h', w))
            | (None, h') \<Rightarrow> watcherLoop d net c ([], h', w) as)
      else watcherLoop d net c (reqs, h, w) as)"

definition SyncAndMonitor :: "Decls \<Rightarrow> Net \<Rightarrow> Client \<Rightarrow> OS \<Rightarrow> (arrival \<times> OS) list
    \<Rightarrow> outcome \<times> flush list" where
  "SyncAndMonitor d net c os as =
     (case startWatcher c os of
        Inl err \<Rightarrow>
          (Returned (Some (Wrap err (''Monitoring directory '' @ [CHR 0x27] @ Client.path c
             @ [CHR 0x27] @ '' failed''))), [])
      | Inr w \<Rightarrow>
          (case Sync d net c os [] of
             (Some err, h) \<Rightarrow> (Returned (Some (Wrap err ''Initial files sending failure'')), h)
           | (None, h) \<Rightarrow>
               (case watcherLoop d net c ([], h, w) as of (res, (reqs, h', w')) \<Rightarrow> (res, h'))))"

subsection \<open>Command line\<close>

text \<open>
  What a run of a program leaves behind: whether the usage text was printed
  (\<^verbatim>\<open>flag.PrintDefaults\<close>), the errors logged, and the exit status.
\<close>

record Run =
  usage :: bool
  logged :: "error list"
  status :: int

text \<open>
  \<^verbatim>\<open>main\<close> of the client, from the parsed flags on. \<open>session\<close> is the outcome of the rest of
  the program when the flags pass the check: \<open>Inl err\<close> when \<^verbatim>\<open>NewClient\<close> fails
  (\<^verbatim>\<open>log.Fatal\<close> exits with status 1), otherwise what \<^verbatim>\<open>SyncAndMonitor\<close> returns (an error
  is logged and \<^verbatim>\<open>main\<close> returns).
\<close>

definition client_main :: "string \<Rightarrow> string \<Rightarrow> int \<Rightarrow> (error + error option) \<Rightarrow> Run" where
  "client_main directory addr portFlag session =
     (if directory = [] \<or> addr = [] \<or> portFlag > 65535 \<or> portFlag \<le> 0
      then \<lparr>usage = True, logged = [], status = 0\<rparr>
      else case session of
        Inl err \<Rightarrow> \<lparr>usage = False, logged = [err], status = 1\<rparr>
      | Inr None \<Rightarrow> \<lparr>usage = False, logged = [], status = 0\<rparr>
      | Inr (Some err) \<Rightarrow> \<lparr>usage = False, logged = [err], status = 0\<rparr>)"

text \<open>\<^verbatim>\<open>main\<close> of the server, up to \<^verbatim>\<open>NewServer\<close>: the same check, with \<^verbatim>\<open>os.Exit(1)\<close>;
  \<open>session\<close> is the error of \<^verbatim>\<open>NewServer\<close>, if any.\<close>

definition server_main :: "string \<Rightarrow> string \<Rightarrow> int \<Rightarrow> error option \<Rightarrow> Run" where
  "server_main directory addr portFlag session =
     (if directory = [] \<or> addr = [] \<or> portFlag > 65535 \<or> portFlag \<le> 0
      then \<lparr>usage = True, logged = [], status = 1\<rparr>
      else case session of
        Some err \<Rightarrow> \<lparr>usage = False, logged = [err], status = 1\<rparr>
      | None \<Rightarrow> \<lparr>usage = False, logged = [], status = 0\<rparr>)"

section \<open>Batches and walks, as the specification words them\<close>

text \<open>
  A network that accepts everything: every dial succeeds and no call leaves an Error
  response in \<^verbatim>\<open>resp\<close>.
\<close>

definition accepting :: "Decls \<Rightarrow> Net \<Rightarrow> bool" where
  "accepting d net =
     ((\<forall>h. dial net h = None)
      \<and> (\<forall>h cur q. Response.Type (case call net h cur q of None \<Rightarrow> zeroResponse d | Some x \<Rightarrow> x)
            \<noteq> responseErr))"

text \<open>The requests sent during a flush, in the order of sending, and whether the flush had
  a connection.\<close>

fun sent :: "flush \<Rightarrow> Request list" where
  "sent (DialFailed err) = []"
| "sent (Connected xs) = map fst xs"

fun connected :: "flush \<Rightarrow> bool" where
  "connected (DialFailed err) = False"
| "connected (Connected xs) = True"

text \<open>
  What the tree walker makes of one visited entry: an error, nothing (the root itself), or
  one request; and the requests it makes of a list of entries, in order.
\<close>

definition emit :: "Client \<Rightarrow> OS \<Rightarrow> visit \<Rightarrow> error + Request option" where
  "emit c os v =
     (case v of Visit absPath isDir err \<Rightarrow>
        (case err of
           Some e \<Rightarrow> Inl e
         | None \<Rightarrow>
             if absPath = Client.path c then Inr None
             else
               (case Rel os (Client.path c) absPath of
                  Inl e \<Rightarrow> Inl e
                | Inr relPath \<Rightarrow>
                    if isDir then Inr (Some (newMkdirRequest relPath))
                    else map_sum id Some (newCreateRequest os absPath relPath))))"

definition emitted :: "Client \<Rightarrow> OS \<Rightarrow> visit list \<Rightarrow> Request list" where
  "emitted c os vs =
     concat (map (\<lambda>v. case emit c os v of Inr (Some req) \<Rightarrow> [req] | _ \<Rightarrow> []) vs)"

text \<open>
  Batches of a fixed size \<open>n\<close>: the items are added one by one to the batch \<open>acc\<close>, and a
  batch is closed when it reaches \<open>n\<close> items. The result is the closed batches and the
  batch left open.
\<close>

fun batches :: "nat \<Rightarrow> 'a list \<Rightarrow> 'a list \<Rightarrow> 'a list list \<times> 'a list" where
  "batches n acc [] = ([], acc)"
| "batches n acc (r # rs) =
     (if length (acc @ [r]) = n
      then (case batches n [] rs of (bs, rest) \<Rightarrow> ((acc @ [r]) # bs, rest))
      else batches n (acc @ [r]) rs)"

section \<open>Concrete inputs\<close>

text \<open>
  A server rooted at \<^verbatim>\<open>/srv\<close> whose tree holds the root only, a client rooted at
  \<^verbatim>\<open>/home/box\<close>, a network that answers Ok to every call, one on which every call fails,
  a source directory of 250 empty files, one from which every file has gone, and a tree
  with a directory \<^verbatim>\<open>d\<close> that has content next to a file \<^verbatim>\<open>dd\<close>.
\<close>

abbreviation (input) exServer :: Server where
  "exServer \<equiv> \<lparr>address = ''localhost'', port = 12345, Server.path = ''/srv''\<rparr>"

abbreviation (input) exDecls :: Decls where
  "exDecls \<equiv> \<lparr>reqString = Path, respString = Message,
     zeroResponse = \<lparr>Response.Type = responseOk, Message = []\<rparr>\<rparr>"

abbreviation (input) exTree :: filesystem where
  "exTree \<equiv> [''/srv'' \<mapsto> Dir]"

abbreviation (input) exClient :: Client where
  "exClient \<equiv> \<lparr>Client.path = ''/home/box'', server = ''localhost:12345''\<rparr>"

abbreviation (input) okNet :: Net where
  "okNet \<equiv> \<lparr>dial = (\<lambda>h. None),
     call = (\<lambda>h cur q. Some \<lparr>Response.Type = responseOk, Message = []\<rparr>)\<rparr>"

abbreviation (input) deadNet :: Net where
  "deadNet \<equiv> \<lparr>dial = (\<lambda>h. None), call = (\<lambda>h cur q. None)\<rparr>"

abbreviation (input) exOS :: OS where
  "exOS \<equiv> \<lparr>Rel = (\<lambda>a b. Inr (drop (Suc (length a)) b)),
     ReadFile = (\<lambda>p. Inr []),
     Stat = (\<lambda>p. Inr False),
     Walk = (\<lambda>root. Visit root True None
               # map (\<lambda>n. Visit (root @ ''/f'' @ decimal n) False None) [0..<250]),
     NewWatcher = None,
     watcherAdd = (\<lambda>p. None)\<rparr>"

abbreviation (input) goneOS :: OS where
  "goneOS \<equiv> \<lparr>Rel = (\<lambda>a b. Inr (drop (Suc (length a)) b)),
     ReadFile = (\<lambda>p. Inl ''no such file or directory''),
     Stat = (\<lambda>p. Inl ''no such file or directory''),
     Walk = (\<lambda>root. []),
     NewWatcher = None,
     watcherAdd = (\<lambda>p. None)\<rparr>"


section \<open>Lemmas on paths\<close>

lemma dotElem_append: "xs \<noteq> [] \<Longrightarrow> dotElem (xs @ CHR ''/'' # ys) = dotElem xs"
  by (cases xs rule: dotElem.cases) (simp_all add: isPathSeparator_def)

lemma dotdotElem_append: "xs \<noteq> [] \<Longrightarrow> dotdotElem (xs @ CHR ''/'' # ys) = dotdotElem xs"
  by (cases xs rule: dotdotElem.cases; cases ys) (simp_all add: isPathSeparator_def)

lemma dotdotElem_tl: "dotdotElem (c # cs) \<Longrightarrow> cs \<noteq> []"
  by (cases cs) simp_all

lemma dropWhile_sep_append:
  "dropWhile (\<lambda>x. \<not> isPathSeparator x) (cs @ CHR ''/'' # ys)
     = dropWhile (\<lambda>x. \<not> isPathSeparator x) cs @ CHR ''/'' # ys"
  by (induction cs) (simp_all add: isPathSeparator_def)

lemma takeWhile_sep_append:
  "takeWhile (\<lambda>x. \<not> isPathSeparator x) (cs @ CHR ''/'' # ys)
     = takeWhile (\<lambda>x. \<not> isPathSeparator x) cs"
  by (induction cs) (simp_all add: isPathSeparator_def)

text \<open>
  The loop reads a path element by element: the state after a prefix that ends where a
  separator follows is the state in which the rest is read.
\<close>

lemma cleanLoop_append:
  "cleanLoop rooted (xs @ CHR ''/'' # ys) st
     = cleanLoop rooted (CHR ''/'' # ys) (cleanLoop rooted xs st)"
proof (induction rooted xs st rule: cleanLoop.induct)
  case (1 rooted out dotdot)
  show ?case by (simp add: cleanLoop.simps(1))
next
  case (2 rooted c cs out dotdot)
  have d1: "dotElem (c # cs @ CHR ''/'' # ys) = dotElem (c # cs)"
    using dotElem_append [of "c # cs" ys] by simp
  have d2: "dotdotElem (c # cs @ CHR ''/'' # ys) = dotdotElem (c # cs)"
    using dotdotElem_append [of "c # cs" ys] by simp
  show ?case
  proof (cases "isPathSeparator c")
    case True
    with 2(1) show ?thesis by (simp add: cleanLoop.simps(2))
  next
    case sep: False
    show ?thesis
    proof (cases "dotElem (c # cs)")
      case True
      with sep 2(2) d1 show ?thesis by (simp add: cleanLoop.simps(2))
    next
      case dot: False
      show ?thesis
      proof (cases "dotdotElem (c # cs)")
        case True
        then have tl: "tl (cs @ CHR ''/'' # ys) = tl cs @ CHR ''/'' # ys"
          using dotdotElem_tl [of c cs] by simp
        from True sep dot d1 d2 tl 2(3,4,5) show ?thesis
          by (simp add: cleanLoop.simps(2))
      next
        case False
        with sep dot d1 d2 2(6) show ?thesis
          by (simp add: cleanLoop.simps(2) dropWhile_sep_append takeWhile_sep_append)
      qed
    qed
  qed
qed

lemma Clean_examples:
  "Clean ''/abs'' = ''/abs''" "Clean ''a/../b'' = ''b''" "Clean ''../x'' = ''../x''"
  "Clean ''a/b/c'' = ''a/b/c''" "Clean ''file.txt'' = ''file.txt''"
  by (simp_all add: Clean_def cleanLoop.simps isPathSeparator_def backtrack.simps)

lemma cleanLoop_rooted_state:
  assumes "Clean (CHR ''/'' # cs) = CHR ''/'' # cs"
  shows "fst (cleanLoop True cs (''/'', 1)) = CHR ''/'' # cs"
  using assms by (simp add: Clean_def isPathSeparator_def Let_def split: if_splits)

lemma Join_root:
  assumes "root = CHR ''/'' # cs" and "Clean root = root"
  shows "Join [root, rel]
    = (let out = fst (cleanLoop True (CHR ''/'' # rel) (root, snd (cleanLoop True cs (''/'', 1))))
       in if length out = 0 then ''.'' else out)"
proof -
  have st: "cleanLoop True cs (''/'', 1) = (root, snd (cleanLoop True cs (''/'', 1)))"
    using cleanLoop_rooted_state [of cs] assms by (simp add: prod_eq_iff)
  have "Join [root, rel] = Clean (CHR ''/'' # (cs @ CHR ''/'' # rel))"
    using assms(1) by simp
  also have "\<dots> = (let out = fst (cleanLoop True (cs @ CHR ''/'' # rel) (''/'', 1))
       in if length out = 0 then ''.'' else out)"
    by (simp add: Clean_def isPathSeparator_def)
  finally show ?thesis
    using st by (simp add: cleanLoop_append)
qed

lemma root_length_one: "root = CHR ''/'' # cs \<Longrightarrow> (length root = 1) = (root = ''/'')"
  by auto

lemma Join_root_d:
  assumes "root = CHR ''/'' # cs" and "Clean root = root"
  shows "Join [root, ''d''] = slashed root @ ''d''"
  unfolding Join_root [OF assms]
  using root_length_one [OF assms(1)]
  by (simp add: cleanLoop.simps isPathSeparator_def slashed_def)

lemma Join_root_d_f:
  assumes "root = CHR ''/'' # cs" and "Clean root = root"
  shows "Join [root, ''d/f''] = slashed root @ ''d/f''"
  unfolding Join_root [OF assms]
  using root_length_one [OF assms(1)]
  by (simp add: cleanLoop.simps isPathSeparator_def slashed_def)

lemma parentDir_slashed_d:
  "root \<noteq> [] \<Longrightarrow> parentDir (slashed root @ ''d'') = root"
  by (cases "root = ''/''") (auto simp add: parentDir_def slashed_def isPathSeparator_def butlast_append split: list.splits)

lemma parentDir_slashed_d_f:
  "parentDir (slashed root @ ''d/f'') = slashed root @ ''d''"
  by (auto simp add: parentDir_def isPathSeparator_def butlast_append split: list.splits)


section \<open>Lemmas on the destination tree\<close>

lemma slashed_longer: "root \<noteq> [] \<Longrightarrow> slashed root @ x # xs \<noteq> root"
  by (auto simp add: slashed_def)

lemma beneath_root_d: "root \<noteq> [] \<Longrightarrow> beneath root (slashed root @ ''d'')"
  using slashed_longer [of root] by (simp add: beneath_def)

lemma beneath_root_d_f: "root \<noteq> [] \<Longrightarrow> beneath root (slashed root @ ''d/f'')"
  using slashed_longer [of root] by (simp add: beneath_def)

lemma beneath_d_f: "beneath (slashed root @ ''d'') (slashed root @ ''d/f'')"
  by (simp add: beneath_def slashed_def)

lemma beneath_d_root:
  assumes "root \<noteq> []" and "beneath (slashed root @ ''d'') k"
  shows "beneath root k"
proof -
  from assms(2) obtain zs where k: "k = slashed root @ ''d/'' @ zs"
    by (auto simp add: beneath_def slashed_def prefix_def)
  then show ?thesis
    using slashed_longer [OF assms(1)] by (simp add: beneath_def)
qed

lemma validate_d: "validateRequest sv \<lparr>Request.Type = t, Path = ''d'', Data = x\<rparr> = None"
  by (simp add: validateRequest_def Clean_def cleanLoop.simps isPathSeparator_def)

lemma validate_d_f: "validateRequest sv \<lparr>Request.Type = t, Path = ''d/f'', Data = x\<rparr> = None"
  by (simp add: validateRequest_def Clean_def cleanLoop.simps isPathSeparator_def)






text \<open>The two failures of \<^verbatim>\<open>os.RemoveAll\<close> on a path where nothing is, below a parent
  that exists.\<close>

lemma ancestors_parent:
  "length (parentDir p) < length p \<Longrightarrow> ancestors p = parentDir p # ancestors (parentDir p)"
  by (subst ancestors.simps) simp

lemma RemoveAll_parent_file:
  assumes "fs p = None" and "fs (parentDir p) = Some (File c)"
    and "length (parentDir p) < length p" and "length (parentDir p) < PATH_MAX"
  shows "RemoveAll fs p = (Some (PathError ''unlinkat'' p ''not a directory''), fs)"
  using assms by (simp add: RemoveAll_def lookupAbsent_def ancestors_parent)

lemma RemoveAll_name_too_long:
  assumes "fs p = None" and "fs (parentDir p) = Some Dir"
    and "length (parentDir p) < length p" and "length (parentDir p) < PATH_MAX"
    and "NAME_MAX < length (baseName p)"
  shows "RemoveAll fs p = (Some (PathError ''unlinkat'' p ''file name too long''), fs)"
  using assms by (simp add: RemoveAll_def lookupAbsent_def ancestors_parent)

section \<open>Lemmas on sending and batching\<close>

lemma sendLoop_all_fail:
  "\<forall>cur q. call net h cur q = None \<Longrightarrow> Response.Type (zeroResponse d) \<noteq> responseErr \<Longrightarrow>
   sendLoop d net h cur reqs = (None, cur @ map (\<lambda>q. (q, None)) reqs)"
  by (induction reqs arbitrary: cur) simp_all

text \<open>A dial that fails is reported: the flush returns the wrapped error.\<close>

lemma sendRequests_dial_failure:
  "reqs \<noteq> [] \<Longrightarrow> dial net h = Some err \<Longrightarrow>
   sendRequests d net h reqs
     = (Some (Wrap err ''Connection to server failed''), h @ [DialFailed err])"
  by (simp add: sendRequests_def)

lemma batches_short:
  "length acc + length rs < n \<Longrightarrow> batches n acc rs = ([], acc @ rs)"
  by (induction rs arbitrary: acc) simp_all

lemma batches_full:
  "length acc < n \<Longrightarrow> n \<le> length acc + length rs \<Longrightarrow>
   batches n acc rs =
     (case batches n [] (drop (n - length acc) rs) of
        (bs, rest) \<Rightarrow> ((acc @ take (n - length acc) rs) # bs, rest))"
proof (induction rs arbitrary: acc)
  case Nil
  then show ?case by simp
next
  case (Cons r rs)
  show ?case
  proof (cases "Suc (length acc) = n")
    case True
    then have "n - length acc = Suc 0" by simp
    with True show ?thesis by (simp split: prod.splits)
  next
    case False
    with Cons.prems have "length (acc @ [r]) < n" "n \<le> length (acc @ [r]) + length rs"
      by simp_all
    from Cons.IH [OF this] False Cons.prems show ?thesis
      by (simp add: Suc_diff_Suc take_Cons' drop_Cons' split: prod.splits)
  qed
qed

lemma batches_250:
  assumes "length rs = 250"
  shows "batches 100 [] rs = ([take 100 rs, take 100 (drop 100 rs)], drop 200 rs)"
proof -
  have 1: "batches 100 [] rs
      = (case batches 100 [] (drop 100 rs) of (bs, rest) \<Rightarrow> (take 100 rs # bs, rest))"
    using batches_full [of "[]" 100 rs] assms by simp
  have 2: "batches 100 [] (drop 100 rs)
      = (case batches 100 [] (drop 200 rs) of
           (bs, rest) \<Rightarrow> (take 100 (drop 100 rs) # bs, rest))"
    using batches_full [of "[]" 100 "drop 100 rs"] assms by simp
  have 3: "batches 100 [] (drop 200 rs) = ([], drop 200 rs)"
    using batches_short [of "[]" "drop 200 rs" 100] assms by simp
  show ?thesis by (simp add: 1 2 3)
qed

lemma sendLoop_accepting:
  assumes "accepting d net"
  shows "\<exists>cur'. sendLoop d net h cur reqs = (None, cur') \<and> map fst cur' = map fst cur @ reqs"
proof (induction reqs arbitrary: cur)
  case Nil
  show ?case by simp
next
  case (Cons q reqs)
  have ok: "Response.Type (case call net h cur q of None \<Rightarrow> zeroResponse d | Some x \<Rightarrow> x)
      \<noteq> responseErr"
    using assms by (simp add: accepting_def)
  from Cons [of "cur @ [(q, call net h cur q)]"] ok show ?case
    by (simp add: Let_def)
qed

lemma sendRequests_accepting:
  assumes "accepting d net" and "reqs \<noteq> []"
  shows "\<exists>f. sendRequests d net h reqs = (None, h @ [f]) \<and> sent f = reqs \<and> connected f"
proof -
  from sendLoop_accepting [OF assms(1), of h "[]" reqs]
  obtain cur' where "sendLoop d net h [] reqs = (None, cur')" "map fst cur' = reqs"
    by auto
  moreover have "dial net h = None" using assms(1) by (simp add: accepting_def)
  ultimately show ?thesis using assms(2) by (simp add: sendRequests_def)
qed

lemma syncFn_emit:
  "syncFn d net c os v (reqs, h) =
     (case emit c os v of
        Inl e \<Rightarrow> (Some e, (reqs, h))
      | Inr None \<Rightarrow> (None, (reqs, h))
      | Inr (Some req) \<Rightarrow>
          (if length (reqs @ [req]) = requestsBufferSize
           then (case sendRequests d net h (reqs @ [req]) of
                   (Some e, h') \<Rightarrow> (Some e, (reqs @ [req], h'))
                 | (None, h') \<Rightarrow> (None, ([], h')))
           else (None, (reqs @ [req], h))))"
  by (cases v) (simp add: syncFn_def emit_def Let_def newCreateRequest_def
      split: option.splits sum.splits)

lemma walk_batches:
  assumes acc: "accepting d net"
    and ok: "\<forall>v \<in> set vs. \<not> isl (emit c os v)"
  shows "\<exists>fl. walkWith vs (syncFn d net c os) (reqs, h)
            = (None, (snd (batches requestsBufferSize reqs (emitted c os vs)), h @ fl))
          \<and> map sent fl = fst (batches requestsBufferSize reqs (emitted c os vs))
          \<and> list_all connected fl"
  using ok
proof (induction vs arbitrary: reqs h)
  case Nil
  show ?case by (simp add: emitted_def)
next
  case (Cons v vs)
  from Cons.prems obtain r where r: "emit c os v = Inr r" by (cases "emit c os v") auto
  from Cons.prems have rest: "\<forall>v \<in> set vs. \<not> isl (emit c os v)" by simp
  show ?case
  proof (cases r)
    case None
    with r Cons.IH [OF rest, of reqs h] show ?thesis
      by (simp add: syncFn_emit emitted_def)
  next
    case (Some req)
    have em: "emitted c os (v # vs) = req # emitted c os vs"
      using r Some by (simp add: emitted_def)
    show ?thesis
    proof (cases "length (reqs @ [req]) = requestsBufferSize")
      case True
      from sendRequests_accepting [OF acc, of "reqs @ [req]" h]
      obtain f where f: "sendRequests d net h (reqs @ [req]) = (None, h @ [f])"
        "sent f = reqs @ [req]" "connected f" by auto
      from Cons.IH [OF rest, of "[]" "h @ [f]"]
      obtain fl where fl: "walkWith vs (syncFn d net c os) ([], h @ [f])
            = (None, (snd (batches requestsBufferSize [] (emitted c os vs)), (h @ [f]) @ fl))"
          "map sent fl = fst (batches requestsBufferSize [] (emitted c os vs))"
          "list_all connected fl" by auto
      have "walkWith (v # vs) (syncFn d net c os) (reqs, h)
            = (None, (snd (batches requestsBufferSize reqs (emitted c os (v # vs))), h @ (f # fl)))"
        using r Some True f(1) fl(1) by (simp add: syncFn_emit em split: prod.splits)
      moreover have "map sent (f # fl)
            = fst (batches requestsBufferSize reqs (emitted c os (v # vs)))"
        using True f(2) fl(2) by (simp add: em split: prod.splits)
      moreover have "list_all connected (f # fl)" using f(3) fl(3) by simp
      ultimately show ?thesis by blast
    next
      case False
      with r Some Cons.IH [OF rest, of "reqs @ [req]" h] show ?thesis
        by (simp add: syncFn_emit em)
    qed
  qed
qed

section \<open>Results\<close>

text \<open>
  C1, as amended: for a request path that does not begin with a \<^verbatim>\<open>..\<close> element, the
  sanitizer accepts the path (returns no error, so the request proceeds with the path as
  it is) if and only if the path is non-empty and equal to its cleaned form; it rejects
  the empty path and \<^verbatim>\<open>a/../b\<close> with an invalid-path error and accepts \<^verbatim>\<open>a/b/c\<close> and
  \<^verbatim>\<open>file.txt\<close>. A leading separator is not checked. Paths that begin with a \<^verbatim>\<open>..\<close>
  element are left out of the statement.
\<close>

theorem validateRequest_accepts_iff:
  assumes "\<not> dotdotElem (Path req)"
  shows "(validateRequest sv req = None \<longleftrightarrow> Path req \<noteq> [] \<and> Clean (Path req) = Path req)
   \<and> validateRequest sv (req\<lparr>Path := []\<rparr>) = Some ''Missing request path''
   \<and> validateRequest sv (req\<lparr>Path := ''a/../b''\<rparr>)
       = Some (''Erroneous path value: '' @ [CHR 0x27] @ ''a/../b'' @ [CHR 0x27])
   \<and> validateRequest sv (req\<lparr>Path := ''a/b/c''\<rparr>) = None
   \<and> validateRequest sv (req\<lparr>Path := ''file.txt''\<rparr>) = None"
  by (auto simp add: validateRequest_def Clean_examples)

theorem validateRequest_accepts_iff_witness:
  "\<not> dotdotElem ''a/b/c''
   \<and> validateRequest exServer \<lparr>Request.Type = requestCreate, Path = ''a/b/c'', Data = []\<rparr> = None
   \<and> validateRequest exServer \<lparr>Request.Type = requestCreate, Path = ''a/../b'', Data = []\<rparr>
       = Some (''Erroneous path value: '' @ [CHR 0x27] @ ''a/../b'' @ [CHR 0x27])"
  using validateRequest_accepts_iff
    [of "\<lparr>Request.Type = requestCreate, Path = ''a/b/c'', Data = []\<rparr>" exServer]
  by (simp add: isPathSeparator_def)

text \<open>
  C1, as stated, fails: the path \<^verbatim>\<open>/abs\<close> begins with a separator and is accepted, being
  equal to its cleaned form.
\<close>

theorem validateRequest_accepts_absolute:
  "validateRequest exServer \<lparr>Request.Type = requestCreate, Path = ''/abs'', Data = []\<rparr> = None
   \<and> isPathSeparator (hd ''/abs'')"
  by (simp add: validateRequest_def Clean_examples isPathSeparator_def)

text \<open>
  C2: on a clean absolute root (\<^verbatim>\<open>NewServer\<close> stores the result of \<^verbatim>\<open>filepath.Abs\<close>,
  which is absolute and cleaned) that is a directory with nothing below it, applying
  MakeDirectory \<^verbatim>\<open>d\<close>, PutFile \<^verbatim>\<open>d/f\<close>, Remove \<^verbatim>\<open>d\<close> in this order answers Ok three times
  and leaves the tree as it was, with neither \<^verbatim>\<open>d\<close> nor \<^verbatim>\<open>d/f\<close> present; with the Remove
  moved before the PutFile, the PutFile is answered with an Error saying that the parent
  directory does not exist, and \<^verbatim>\<open>d\<close> is absent at the end.
\<close>

theorem apply_ordering:
  assumes root: "Server.path sv = CHR ''/'' # cs" "Clean (Server.path sv) = Server.path sv"
    and dir: "fs (Server.path sv) = Some Dir"
    and empty: "\<forall>k. beneath (Server.path sv) k \<longrightarrow> fs k = None"
  shows "applyRequests d sv
           [\<lparr>Request.Type = requestMkdir, Path = ''d'', Data = []\<rparr>,
            \<lparr>Request.Type = requestCreate, Path = ''d/f'', Data = X\<rparr>,
            \<lparr>Request.Type = requestRemove, Path = ''d'', Data = []\<rparr>] fs
         = ([\<lparr>Response.Type = responseOk, Message = []\<rparr>,
             \<lparr>Response.Type = responseOk, Message = []\<rparr>,
             \<lparr>Response.Type = responseOk, Message = []\<rparr>], fs)
       \<and> applyRequests d sv
           [\<lparr>Request.Type = requestMkdir, Path = ''d'', Data = []\<rparr>,
            \<lparr>Request.Type = requestRemove, Path = ''d'', Data = []\<rparr>,
            \<lparr>Request.Type = requestCreate, Path = ''d/f'', Data = X\<rparr>] fs
         = ([\<lparr>Response.Type = responseOk, Message = []\<rparr>,
             \<lparr>Response.Type = responseOk, Message = []\<rparr>,
             \<lparr>Response.Type = responseErr,
              Message = PathError ''open'' (Join [Server.path sv, ''d/f''])
                          ''no such file or directory''\<rparr>], fs)
       \<and> fs (Join [Server.path sv, ''d'']) = None
       \<and> fs (Join [Server.path sv, ''d/f'']) = None"
proof -
  let ?root = "Server.path sv"
  let ?D = "slashed ?root @ ''d''"
  let ?F = "slashed ?root @ ''d/f''"
  have ne: "?root \<noteq> []" using root(1) by simp
  have jD: "Join [?root, ''d''] = ?D" by (rule Join_root_d [OF root])
  have jF: "Join [?root, ''d/f''] = ?F" by (rule Join_root_d_f [OF root])
  have pD: "parentDir ?D = ?root" by (rule parentDir_slashed_d [OF ne])
  have pF: "parentDir ?F = ?D" by (rule parentDir_slashed_d_f)
  have fD: "fs ?D = None" using empty beneath_root_d [OF ne] by blast
  have fF: "fs ?F = None" using empty beneath_root_d_f [OF ne] by blast
  have DF: "?D \<noteq> ?F" by simp
  have Dr: "?D \<noteq> ?root" using slashed_longer [OF ne] by simp
  have below: "\<And>k. beneath ?D k \<Longrightarrow> fs k = None"
    using empty beneath_d_root [OF ne] by blast
  have rm1: "(\<lambda>k. if k = ?D \<or> beneath ?D k then None else (fs(?D \<mapsto> Dir, ?F \<mapsto> File X)) k) = fs"
    using fD below beneath_d_f [of ?root] by (auto simp add: fun_eq_iff)
  have rm2: "(\<lambda>k. if k = ?D \<or> beneath ?D k then None else (fs(?D \<mapsto> Dir)) k) = fs"
    using fD below by (auto simp add: fun_eq_iff)
  have a1: "ApplyRequest d sv \<lparr>Request.Type = requestMkdir, Path = ''d'', Data = []\<rparr> fs
      = (\<lparr>Response.Type = responseOk, Message = []\<rparr>, fs(?D \<mapsto> Dir))"
    using jD pD dir fD
    by (simp add: ApplyRequest_def validate_d Mkdir_def lookupParent_def del: Join.simps)
  have a2: "ApplyRequest d sv \<lparr>Request.Type = requestCreate, Path = ''d/f'', Data = X\<rparr>
        (fs(?D \<mapsto> Dir)) = (\<lparr>Response.Type = responseOk, Message = []\<rparr>, fs(?D \<mapsto> Dir, ?F \<mapsto> File X))"
    using jF pF fF DF
    by (simp add: ApplyRequest_def validate_d_f WriteFile_def lookupParent_def del: Join.simps)
  have a3: "ApplyRequest d sv \<lparr>Request.Type = requestRemove, Path = ''d'', Data = []\<rparr>
        (fs(?D \<mapsto> Dir, ?F \<mapsto> File X)) = (\<lparr>Response.Type = responseOk, Message = []\<rparr>, fs)"
    using jD rm1 DF
    by (simp add: ApplyRequest_def validate_d RemoveAll_def del: Join.simps)
  have b2: "ApplyRequest d sv \<lparr>Request.Type = requestRemove, Path = ''d'', Data = []\<rparr>
        (fs(?D \<mapsto> Dir)) = (\<lparr>Response.Type = responseOk, Message = []\<rparr>, fs)"
    using jD rm2
    by (simp add: ApplyRequest_def validate_d RemoveAll_def del: Join.simps)
  have b3: "ApplyRequest d sv \<lparr>Request.Type = requestCreate, Path = ''d/f'', Data = X\<rparr> fs
      = (\<lparr>Response.Type = responseErr,
           Message = PathError ''open'' ?F ''no such file or directory''\<rparr>, fs)"
    using jF pF fD
    by (simp add: ApplyRequest_def validate_d_f WriteFile_def lookupParent_def del: Join.simps)
  show ?thesis
    using a1 a2 a3 b2 b3 jD jF fD fF by (simp del: Join.simps)
qed


theorem apply_ordering_witness:
  "applyRequests exDecls exServer
      [\<lparr>Request.Type = requestMkdir, Path = ''d'', Data = []\<rparr>,
       \<lparr>Request.Type = requestCreate, Path = ''d/f'', Data = [1, 2]\<rparr>,
       \<lparr>Request.Type = requestRemove, Path = ''d'', Data = []\<rparr>] exTree
     = ([\<lparr>Response.Type = responseOk, Message = []\<rparr>,
         \<lparr>Response.Type = responseOk, Message = []\<rparr>,
         \<lparr>Response.Type = responseOk, Message = []\<rparr>], exTree)
   \<and> applyRequests exDecls exServer
      [\<lparr>Request.Type = requestMkdir, Path = ''d'', Data = []\<rparr>,
       \<lparr>Request.Type = requestRemove, Path = ''d'', Data = []\<rparr>,
       \<lparr>Request.Type = requestCreate, Path = ''d/f'', Data = [1, 2]\<rparr>] exTree
     = ([\<lparr>Response.Type = responseOk, Message = []\<rparr>,
         \<lparr>Response.Type = responseOk, Message = []\<rparr>,
         \<lparr>Response.Type = responseErr,
          Message = ''open /srv/d/f: no such file or directory''\<rparr>], exTree)
   \<and> exTree ''/srv/d'' = None \<and> exTree ''/srv/d/f'' = None"
proof -
  have c: "Clean (Server.path exServer) = Server.path exServer"
    by (simp add: Clean_def cleanLoop.simps isPathSeparator_def)
  have e: "\<forall>k. beneath (Server.path exServer) k \<longrightarrow> exTree k = None"
    by (simp add: beneath_def slashed_def)
  have j: "Join [Server.path exServer, ''d/f''] = ''/srv/d/f''"
    by (simp add: Clean_def cleanLoop.simps isPathSeparator_def)
  from apply_ordering [of exServer "''srv''" exTree exDecls "[1, 2]", OF _ c _ e] j
  show ?thesis by (simp add: PathError_def del: Join.simps)
qed

text \<open>
  C3 (as the code has it): on an open connection on which every call fails, with a zero
  \<^verbatim>\<open>Response\<close> that is not an Error response, \<^verbatim>\<open>sendRequests\<close> goes through the whole
  batch and returns success: the failure of \<^verbatim>\<open>rconn.Call\<close> is not looked at.
\<close>

theorem sendRequests_call_failure_success:
  assumes "dial net h = None" and "\<forall>cur q. call net h cur q = None"
    and "Response.Type (zeroResponse d) \<noteq> responseErr" and "reqs \<noteq> []"
  shows "sendRequests d net h reqs = (None, h @ [Connected (map (\<lambda>q. (q, None)) reqs)])"
  using assms by (simp add: sendRequests_def sendLoop_all_fail)

theorem sendRequests_call_failure_success_witness:
  "sendRequests exDecls deadNet [] [newMkdirRequest ''d'']
     = (None, [Connected [(newMkdirRequest ''d'', None)]])"
  using sendRequests_call_failure_success [of deadNet "[]" exDecls "[newMkdirRequest ''d'']"]
  by simp

text \<open>
  C4 (as the code has it): with an empty directory path the client prints the usage text and
  exits with status 0, where the claim asks for a non-zero status; the server's \<^verbatim>\<open>main\<close>
  exits with status 1 on the same input.
\<close>

theorem client_main_invalid_exit_zero:
  "client_main [] ''localhost'' 12345 s = \<lparr>usage = True, logged = [], status = 0\<rparr>
   \<and> server_main [] ''localhost'' 12345 t = \<lparr>usage = True, logged = [], status = 1\<rparr>"
  by (simp add: client_main_def server_main_def)

text \<open>
  C5: when the network accepts everything and every entry of the walk is readable, a walk
  that yields 250 requests makes \<^verbatim>\<open>Sync\<close> return success after exactly three flushes, each
  on a connection of its own: the first 100 requests, the next 100 and the last 50, each
  batch in the order the walk produced it. (The lemma \<open>walk_batches\<close> is the general
  statement: a flush happens exactly when the buffer reaches 100 requests.)
\<close>

theorem Sync_250_three_flushes:
  assumes acc: "accepting d net"
    and ok: "\<forall>v \<in> set (Walk os (Client.path c)). \<not> isl (emit c os v)"
    and n: "length (emitted c os (Walk os (Client.path c))) = 250"
  shows "\<exists>f1 f2 f3. Sync d net c os h = (None, h @ [f1, f2, f3])
      \<and> connected f1 \<and> connected f2 \<and> connected f3
      \<and> sent f1 = take 100 (emitted c os (Walk os (Client.path c)))
      \<and> sent f2 = take 100 (drop 100 (emitted c os (Walk os (Client.path c))))
      \<and> sent f3 = drop 200 (emitted c os (Walk os (Client.path c)))"
proof -
  let ?rs = "emitted c os (Walk os (Client.path c))"
  have b: "batches requestsBufferSize [] ?rs = ([take 100 ?rs, take 100 (drop 100 ?rs)], drop 200 ?rs)"
    using batches_250 [OF n] by (simp add: requestsBufferSize_def)
  from walk_batches [OF acc ok, of "[]" h] b
  obtain fl where fl: "walkWith (Walk os (Client.path c)) (syncFn d net c os) ([], h)
        = (None, (drop 200 ?rs, h @ fl))"
      "map sent fl = [take 100 ?rs, take 100 (drop 100 ?rs)]" "list_all connected fl"
    by auto
  from fl(2) obtain f1 f2 where f12: "fl = [f1, f2]" by (auto simp add: map_eq_Cons_conv)
  have ne: "drop 200 ?rs \<noteq> []" using n by simp
  from sendRequests_accepting [OF acc ne, of "h @ fl"]
  obtain f3 where f3: "sendRequests d net (h @ fl) (drop 200 ?rs) = (None, (h @ fl) @ [f3])"
      "sent f3 = drop 200 ?rs" "connected f3" by auto
  have "Sync d net c os h = (None, h @ [f1, f2, f3])"
    using fl(1) f3(1) f12 by (simp add: Sync_def)
  with fl(2,3) f12 f3(2,3) show ?thesis by auto
qed


theorem Sync_250_three_flushes_witness:
  "accepting exDecls okNet
   \<and> length (emitted exClient exOS (Walk exOS (Client.path exClient))) = 250
   \<and> (\<exists>f1 f2 f3. Sync exDecls okNet exClient exOS [] = (None, [f1, f2, f3])
        \<and> length (sent f1) = 100 \<and> length (sent f2) = 100 \<and> length (sent f3) = 50)"
proof -
  have a: "accepting exDecls okNet" by (simp add: accepting_def)
  have e: "emit exClient exOS (Visit (''/home/box'' @ ''/f'' @ decimal n) False None)
      = Inr (Some \<lparr>Request.Type = requestCreate, Path = ''f'' @ decimal n, Data = []\<rparr>)" for n
    by (simp add: emit_def newCreateRequest_def)
  have r: "emit exClient exOS (Visit ''/home/box'' True None) = Inr None"
    by (simp add: emit_def)
  have ok: "\<forall>v \<in> set (Walk exOS (Client.path exClient)). \<not> isl (emit exClient exOS v)"
    using e r by auto
  have n: "length (emitted exClient exOS (Walk exOS (Client.path exClient))) = 250"
    using e r by (simp add: emitted_def comp_def)
  from Sync_250_three_flushes [OF a ok n, of "[]"] a n show ?thesis
    by (auto simp add: n)
qed

text \<open>
  C6: when the validation of the path fails, \<^verbatim>\<open>ApplyRequest\<close> answers with an Error
  response that carries the validator's message, and the tree is unchanged.
\<close>

theorem ApplyRequest_invalid_path:
  "validateRequest sv req = Some msg \<Longrightarrow>
   ApplyRequest d sv req fs = (\<lparr>Response.Type = responseErr, Message = msg\<rparr>, fs)"
  by (simp add: ApplyRequest_def)

theorem ApplyRequest_invalid_path_witness:
  "validateRequest exServer \<lparr>Request.Type = requestMkdir, Path = [], Data = []\<rparr>
     = Some ''Missing request path''
   \<and> ApplyRequest exDecls exServer \<lparr>Request.Type = requestMkdir, Path = [], Data = []\<rparr> exTree
     = (\<lparr>Response.Type = responseErr, Message = ''Missing request path''\<rparr>, exTree)"
proof -
  have h: "validateRequest exServer \<lparr>Request.Type = requestMkdir, Path = [], Data = []\<rparr>
     = Some ''Missing request path''"
    by (simp add: validateRequest_def)
  from ApplyRequest_invalid_path [OF h] h show ?thesis by simp
qed




text \<open>
  C8: when an event needs the content of the file (a Create of something that is not a
  directory; or a Write without Create, Remove or Rename) and reading the file fails,
  \<^verbatim>\<open>handleEvent\<close> returns an error and no request, and \<^verbatim>\<open>watcherLoop\<close> returns that
  error, wrapped, at once: the buffer and the history of flushes are as before, and the
  rest of the arrivals is not looked at.
\<close>

theorem handleEvent_read_failure:
  assumes read: "ReadFile os (Name ev) = Inl e"
    and needs: "and (Op ev) Create = Create \<and> \<not> isDirectory os (Name ev)
      \<or> and (Op ev) Create \<noteq> Create \<and> and (Op ev) Remove \<noteq> Remove
        \<and> and (Op ev) Rename \<noteq> Rename \<and> and (Op ev) Write = Write"
  shows "handleEvent c os ev w
      = (Inl (case Rel os (Client.path c) (Name ev) of Inl r \<Rightarrow> r | Inr rel \<Rightarrow> e), w)
    \<and> watcherLoop d net c (reqs, h, w) ((EventRecv ev, os) # as)
        = (Returned (Some (Wrap (case Rel os (Client.path c) (Name ev) of
                                   Inl r \<Rightarrow> r | Inr rel \<Rightarrow> e)
                             ''Handling file event failed'')), (reqs, h, w))"
proof -
  have "handleEvent c os ev w
      = (Inl (case Rel os (Client.path c) (Name ev) of Inl r \<Rightarrow> r | Inr rel \<Rightarrow> e), w)"
    using read needs
    by (auto simp add: handleEvent_def newCreateRequest_def split: sum.splits)
  then show ?thesis by simp
qed


theorem handleEvent_read_failure_witness:
  "handleEvent exClient goneOS \<lparr>Name = ''/home/box/f'', Op = Create\<rparr> []
     = (Inl ''no such file or directory'', [])
   \<and> watcherLoop exDecls okNet exClient ([], [], [])
        [(EventRecv \<lparr>Name = ''/home/box/f'', Op = Create\<rparr>, goneOS)]
     = (Returned (Some ''Handling file event failed: no such file or directory''), ([], [], []))"
  using handleEvent_read_failure
    [of goneOS "\<lparr>Name = ''/home/box/f'', Op = Create\<rparr>" "''no such file or directory''"
        exClient "[]" exDecls okNet "[]" "[]" "[]"]
  by (simp add: isDirectory_def Wrap_def)
text \<open>
  C9: when the path passes the validation and the kind of the request is none of the three
  known ones, \<^verbatim>\<open>ApplyRequest\<close> returns an Error response whose message names the request,
  and the tree is unchanged.
\<close>

theorem ApplyRequest_unhandled:
  "validateRequest sv req = None \<Longrightarrow> Request.Type req = requestOther n \<Longrightarrow>
   ApplyRequest d sv req fs
     = (\<lparr>Response.Type = responseErr, Message = ''Unhandled request: '' @ reqString d req\<rparr>, fs)"
  by (simp add: ApplyRequest_def)

theorem ApplyRequest_unhandled_witness:
  "validateRequest exServer \<lparr>Request.Type = requestOther 7, Path = ''a'', Data = []\<rparr> = None
   \<and> ApplyRequest exDecls exServer \<lparr>Request.Type = requestOther 7, Path = ''a'', Data = []\<rparr> exTree
     = (\<lparr>Response.Type = responseErr, Message = ''Unhandled request: a''\<rparr>, exTree)"
proof -
  have h: "validateRequest exServer \<lparr>Request.Type = requestOther 7, Path = ''a'', Data = []\<rparr> = None"
    by (simp add: validateRequest_def Clean_def cleanLoop.simps isPathSeparator_def)
  from ApplyRequest_unhandled [OF h, of 7 exDecls exTree] h show ?thesis by simp
qed

text \<open>
  C10: sending an empty list of requests returns success at once and opens no connection:
  the history of flushes is unchanged (no dial is attempted).
\<close>

theorem sendRequests_empty:
  "sendRequests d net h [] = (None, h)"
  by (simp add: sendRequests_def)

end
